theory Spec2Isabelle
  imports Main
begin

section \<open>Text\<close>

text \<open>
  A Python \<open>str\<close> is modelled as the list of its code points, a \<open>char\<close> standing for a
  code point below 256. \<open>str.rstrip()\<close> and \<open>str.strip()\<close> without argument remove the
  characters for which \<open>str.isspace\<close> holds; below 256 these are U+0009..U+000D,
  U+001C..U+001F, U+0020, U+0085 and U+00A0. \<open>bytes.rstrip()\<close> removes the six ASCII
  whitespace bytes only.
\<close>

definition newline :: char where
  "newline = CHR 0x0A"

definition str_whitespace :: "char list" where
  "str_whitespace = [CHR 0x09, CHR 0x0A, CHR 0x0B, CHR 0x0C, CHR 0x0D, CHR 0x1C, CHR 0x1D,
     CHR 0x1E, CHR 0x1F, CHR 0x20, CHR 0x85, CHR 0xA0]"

definition bytes_whitespace :: "char list" where
  "bytes_whitespace = [CHR 0x09, CHR 0x0A, CHR 0x0B, CHR 0x0C, CHR 0x0D, CHR 0x20]"

definition isspace :: "bool \<Rightarrow> char \<Rightarrow> bool" where
  \<comment> \<open>the flag is \<open>text\<close>: a \<open>str\<close> when set, \<open>bytes\<close> otherwise\<close>
  "isspace text c = (c \<in> set (if text then str_whitespace else bytes_whitespace))"

definition rstrip :: "bool \<Rightarrow> string \<Rightarrow> string" where
  "rstrip text s = rev (dropWhile (isspace text) (rev s))"

definition strip :: "string \<Rightarrow> string" where
  "strip s = dropWhile (isspace True) (rstrip True s)"

text \<open>\<open>s.split(sep)\<close> for a one-character separator: never empty, \<open>''.split('/') = ['']\<close>.\<close>

fun split :: "char \<Rightarrow> string \<Rightarrow> string list" where
  "split sep [] = [[]]"
| "split sep (c # cs) =
     (if c = sep then [] # split sep cs
      else (case split sep cs of [] \<Rightarrow> [[c]] | w # ws \<Rightarrow> (c # w) # ws))"

fun join :: "string \<Rightarrow> string list \<Rightarrow> string" where
  "join sep [] = []"
| "join sep [w] = w"
| "join sep (w # v # ws) = w @ sep @ join sep (v # ws)"

section \<open>The command runner\<close>

datatype cmd = Shell string | Argv "string list"

datatype path_or_str = Path string | Str string

type_synonym environment = "(string \<times> string) list"

datatype exn =
    CalledProcessError int cmd "string option" "string option"
  | TimeoutExpired
  | OSError
  | AttributeError
  | SystemExit int

text \<open>
  What the operating system is asked to run, and how a child process ends: it exits with a
  status, having written its standard output and standard error; it is killed when the
  timeout expires; or it cannot be started at all.
\<close>

record proc =
  p_cmd :: cmd
  p_shell :: bool
  p_cwd :: "string option"
  p_environ :: environment
  p_timeout :: "nat option"

datatype child_end = Exited int string string | Expired | NotStarted

record system =
  environ :: environment
  absolute :: "string \<Rightarrow> string"
  child :: "proc \<Rightarrow> child_end"

text \<open>The keyword arguments of \<open>subprocess.run\<close> and the \<open>CompletedProcess\<close> it returns.\<close>

record run_kwargs =
  k_cmd :: cmd
  k_shell :: bool
  k_cwd :: "string option"
  k_env :: "environment option"
  k_check :: bool
  k_capture_output :: bool
  k_text :: bool
  k_timeout :: "nat option"

record completed_process =
  returncode :: int
  stdout :: "string option"
  stderr :: "string option"

text \<open>
  \<open>subprocess.run\<close> is library code: with \<open>env=None\<close> the child inherits the environment of
  the calling process, with a dictionary the child's environment is that dictionary and
  nothing else; the two streams are kept only under \<open>capture_output\<close>.
\<close>

definition popen :: "system \<Rightarrow> run_kwargs \<Rightarrow> proc" where
  "popen sys k =
     \<lparr>p_cmd = k_cmd k, p_shell = k_shell k, p_cwd = k_cwd k,
      p_environ = (case k_env k of None \<Rightarrow> environ sys | Some e \<Rightarrow> e),
      p_timeout = k_timeout k\<rparr>"

definition subprocess_run :: "system \<Rightarrow> run_kwargs \<Rightarrow> exn + completed_process" where
  "subprocess_run sys k =
     (case child sys (popen sys k) of
        Exited rc out err \<Rightarrow>
          Inr \<lparr>returncode = rc,
               stdout = (if k_capture_output k then Some out else None),
               stderr = (if k_capture_output k then Some err else None)\<rparr>
      | Expired \<Rightarrow> Inl TimeoutExpired
      | NotStarted \<Rightarrow> Inl OSError)"

text \<open>The effects of a run: the processes spawned and the lines printed, in order.\<close>

record io =
  spawned :: "proc list"
  printed :: "string list"

definition io0 :: io where
  "io0 = \<lparr>spawned = [], printed = []\<rparr>"

text \<open>A dictionary is an association list with distinct keys; it is truthy when not empty.\<close>

fun dict_set :: "string \<Rightarrow> string \<Rightarrow> environment \<Rightarrow> environment" where
  "dict_set k v [] = [(k, v)]"
| "dict_set k v ((k', v') # d) = (if k = k' then (k, v) # d else (k', v') # dict_set k v d)"

definition dict_update :: "environment \<Rightarrow> environment \<Rightarrow> environment" where
  "dict_update d e = foldl (\<lambda>acc (k, v). dict_set k v acc) d e"

definition truthy :: "environment option \<Rightarrow> bool" where
  "truthy extra_env = (case extra_env of None \<Rightarrow> False | Some d \<Rightarrow> d \<noteq> [])"

definition updated_env :: "system \<Rightarrow> environment option \<Rightarrow> environment option" where
  \<comment> \<open>the local variable of that name; it is bound only when \<open>extra_env\<close> is truthy\<close>
  "updated_env sys extra_env =
     (if truthy extra_env then Some (dict_update (environ sys) (the extra_env)) else None)"

definition run_cmd_kwargs ::
  "system \<Rightarrow> cmd \<Rightarrow> path_or_str option \<Rightarrow> environment option \<Rightarrow> bool \<Rightarrow> bool \<Rightarrow> nat option
     \<Rightarrow> run_kwargs" where
  "run_cmd_kwargs sys cmd cwd extra_env capture_output text timeout =
     (let shell = (case cmd of Shell _ \<Rightarrow> True | Argv _ \<Rightarrow> False);
          cwd' = (case cwd of
                    Some (Path p) \<Rightarrow> Some (absolute sys p)
                  | Some (Str s) \<Rightarrow> Some s
                  | None \<Rightarrow> None)
      in \<lparr>k_cmd = cmd, k_shell = shell, k_cwd = cwd', k_env = extra_env, k_check = False,
          k_capture_output = capture_output, k_text = text, k_timeout = timeout\<rparr>)"

definition run_cmd ::
  "system \<Rightarrow> cmd \<Rightarrow> path_or_str option \<Rightarrow> environment option \<Rightarrow> bool \<Rightarrow> bool \<Rightarrow> nat option
     \<Rightarrow> io \<Rightarrow> (exn + string option \<times> string option) \<times> io" where
  "run_cmd sys cmd cwd extra_env capture_output text timeout st =
     (let k = run_cmd_kwargs sys cmd cwd extra_env capture_output text timeout;
          st' = st\<lparr>spawned := spawned st @ [popen sys k]\<rparr>
      in case subprocess_run sys k of
           Inl e \<Rightarrow> (Inl e, st')
         | Inr p \<Rightarrow>
             if returncode p \<noteq> 0
             then (Inl (CalledProcessError (returncode p) cmd (stdout p) (stderr p)), st')
             else if capture_output
             then (case (stdout p, stderr p) of
                     (Some out, Some err) \<Rightarrow> (Inr (Some (rstrip text out), Some (rstrip text err)), st')
                   | _ \<Rightarrow> (Inl AttributeError, st'))
             else (Inr (None, None), st'))"

text \<open>
  The process \<open>run_cmd\<close> spawns for a command line given alone, as the hook gives it: run
  by the shell, in the current directory, with the inherited environment and no timeout.
\<close>

definition shell_proc :: "system \<Rightarrow> string \<Rightarrow> proc" where
  "shell_proc sys line =
     \<lparr>p_cmd = Shell line, p_shell = True, p_cwd = None, p_environ = environ sys,
      p_timeout = None\<rparr>"

section \<open>The hook\<close>

definition RED :: string where
  "RED = CHR 0x1B # ''[0;31m''"

definition NC :: string where
  "NC = CHR 0x1B # ''[0m''"

definition symbolic_ref_cmd :: string where
  "symbolic_ref_cmd = ''git symbolic-ref HEAD''"

definition fixme_cmd :: string where
  \<comment> \<open>\<open>CHR 0x22\<close> is the double quote, \<open>CHR 0x5C\<close> the backslash\<close>
  "fixme_cmd = ''git diff --cached | grep -iE '' @ [CHR 0x22, CHR 0x5C] @ ''+.*?FIXME''
     @ [CHR 0x22] @ '' || true''"

definition is_on_branch :: "system \<Rightarrow> string set \<Rightarrow> io \<Rightarrow> (exn + bool) \<times> io" where
  "is_on_branch sys protected st =
     (case run_cmd sys (Shell symbolic_ref_cmd) None None True True None st of
        (Inl (CalledProcessError rc c out err), st') \<Rightarrow> (Inr False, st')
      | (Inl e, st') \<Rightarrow> (Inl e, st')
      | (Inr (None, _), st') \<Rightarrow> (Inl AttributeError, st')
      | (Inr (Some ref_name, _), st') \<Rightarrow>
          (let chunks = split (CHR ''/'') (strip ref_name);
               branch_name = join ''/'' (drop 2 chunks)
           in (Inr (branch_name \<in> protected), st')))"

definition fixme_message :: string where
  "fixme_message = RED @ ''Error: Found FIXME in attempted commit. '' @ [newline]
     @ ''Please remove all occurrences of FIXME before committing.'' @ NC @ [newline, newline]"

definition has_fixme_comments :: "system \<Rightarrow> io \<Rightarrow> (exn + bool) \<times> io" where
  "has_fixme_comments sys st =
     (case run_cmd sys (Shell fixme_cmd) None None True True None st of
        (Inl e, st') \<Rightarrow> (Inl e, st')
      | (Inr (matches, _), st') \<Rightarrow>
          if matches \<noteq> Some []
          then (Inr True,
                st'\<lparr>printed := printed st' @
                  [fixme_message, (case matches of None \<Rightarrow> ''None'' | Some m \<Rightarrow> m) @ [newline]]\<rparr>)
          else (Inr False, st'))"

text \<open>
  \<open>argparse\<close> is library code. The parser has the one option \<open>-b\<close>/\<open>--branch\<close> with
  \<open>action='append'\<close> (the attribute is \<open>None\<close> until the option occurs, then the list of its
  values in order) and the built-in \<open>-h\<close>/\<open>--help\<close>, which exits with status 0; a usage error
  exits with status 2. The model reads the option as \<open>-b NAME\<close>, \<open>--branch NAME\<close> and
  \<open>--branch=NAME\<close>, where a separate \<open>NAME\<close> may not begin with a dash; an argument
  it does not recognise is reported once the whole line is read. The model does not cover
  the further spellings \<open>argparse\<close> accepts (an unambiguous prefix of a long option,
  \<open>-bNAME\<close>, a lone dash or a negative number as a value) and takes them for usage errors.
\<close>

definition append_value :: "string list option \<Rightarrow> string \<Rightarrow> string list option" where
  "append_value acc v = (case acc of None \<Rightarrow> Some [v] | Some vs \<Rightarrow> Some (vs @ [v]))"

fun parse_args :: "string list option \<Rightarrow> bool \<Rightarrow> string list \<Rightarrow> exn + string list option" where
  "parse_args acc extras [] = (if extras then Inl (SystemExit 2) else Inr acc)"
| "parse_args acc extras (a # rest) =
     (if a = ''-h'' \<or> a = ''--help'' then Inl (SystemExit 0)
      else if a = ''-b'' \<or> a = ''--branch''
      then (case rest of
              [] \<Rightarrow> Inl (SystemExit 2)
            | v # rest' \<Rightarrow>
                if take 1 v = ''-'' then Inl (SystemExit 2)
                else parse_args (append_value acc v) extras rest')
      else if take 9 a = ''--branch='' then parse_args (append_value acc (drop 9 a)) extras rest
      else parse_args acc True rest)"

definition protected_set :: "string list option \<Rightarrow> string set" where
  \<comment> \<open>\<open>frozenset(args.branch or ('master', 'main'))\<close>: \<open>None\<close> and the empty list are falsy\<close>
  "protected_set branch =
     (case branch of
        None \<Rightarrow> set [''master'', ''main'']
      | Some bs \<Rightarrow> if bs = [] then set [''master'', ''main''] else set bs)"

text \<open>
  The statement \<open>if is_on_branch(protected) and has_fixme_comments(): return 1 else: return 0\<close>;
  \<open>and\<close> evaluates its right operand only when the left one is true.
\<close>

definition decide :: "system \<Rightarrow> string set \<Rightarrow> io \<Rightarrow> (exn + int) \<times> io" where
  "decide sys protected st =
     (case is_on_branch sys protected st of
        (Inl e, st1) \<Rightarrow> (Inl e, st1)
      | (Inr False, st1) \<Rightarrow> (Inr 0, st1)
      | (Inr True, st1) \<Rightarrow>
          (case has_fixme_comments sys st1 of
             (Inl e, st2) \<Rightarrow> (Inl e, st2)
           | (Inr True, st2) \<Rightarrow> (Inr 1, st2)
           | (Inr False, st2) \<Rightarrow> (Inr 0, st2)))"

definition main :: "system \<Rightarrow> string list \<Rightarrow> io \<Rightarrow> (exn + int) \<times> io" where
  "main sys argv st =
     (case parse_args None False argv of
        Inl e \<Rightarrow> (Inl e, st)
      | Inr branch \<Rightarrow> decide sys (protected_set branch) st)"

section \<open>The shell commands\<close>

text \<open>
  The two command lines the hook hands to the shell, over a repository described by what
  \<open>git symbolic-ref HEAD\<close> and \<open>git diff --cached\<close> do in it: exit status, standard output
  and standard error of each. The output of the tools is taken to be text: it decodes, and
  \<open>grep\<close> does not take its input for a binary file.
\<close>

record repo =
  symbolic_ref_HEAD :: "int \<times> string \<times> string"
  diff_cached :: "int \<times> string \<times> string"

text \<open>
  \<open>grep\<close> reads its input line by line; a last line without a terminating newline counts.
\<close>

fun input_lines :: "string \<Rightarrow> string \<Rightarrow> string list" where
  "input_lines cur [] = (if cur = [] then [] else [cur])"
| "input_lines cur (c # cs) =
     (if c = newline then cur # input_lines [] cs else input_lines (cur @ [c]) cs)"

text \<open>
  The shell removes the double quotes and leaves the backslash, so \<open>grep\<close> is given the
  extended regular expression \<open>\+.*?FIXME\<close>: a literal plus sign, any run of characters
  (the \<open>?\<close> after the starred dot adds nothing), then the five letters, which \<open>-i\<close> lets
  match in either case. A line is selected when the expression matches some part of it:
  the expression is not anchored.
\<close>

definition to_lower :: "char \<Rightarrow> char" where
  "to_lower c =
     (case map_of (zip ''ABCDEFGHIJKLMNOPQRSTUVWXYZ'' ''abcdefghijklmnopqrstuvwxyz'') c of
        Some l \<Rightarrow> l
      | None \<Rightarrow> c)"

fun match_literal_i :: "string \<Rightarrow> string \<Rightarrow> bool" where
  "match_literal_i [] s = True"
| "match_literal_i (p # ps) [] = False"
| "match_literal_i (p # ps) (c # cs) = (to_lower p = to_lower c \<and> match_literal_i ps cs)"

fun match_dotstar_FIXME :: "string \<Rightarrow> bool" where
  "match_dotstar_FIXME [] = match_literal_i ''FIXME'' []"
| "match_dotstar_FIXME (c # cs) = (match_literal_i ''FIXME'' (c # cs) \<or> match_dotstar_FIXME cs)"

fun match_here :: "string \<Rightarrow> bool" where
  "match_here [] = False"
| "match_here (c # cs) = (c = CHR ''+'' \<and> match_dotstar_FIXME cs)"

fun grep_selects :: "string \<Rightarrow> bool" where
  "grep_selects [] = match_here []"
| "grep_selects (c # cs) = (match_here (c # cs) \<or> grep_selects cs)"

definition text_of_lines :: "string list \<Rightarrow> string" where
  "text_of_lines ls = concat (map (\<lambda>l. l @ [newline]) ls)"

definition grep_iE :: "string \<Rightarrow> int \<times> string" where
  \<comment> \<open>exit status 0 when a line is selected, 1 when none is; the selected lines are written out\<close>
  "grep_iE input =
     (let sel = filter grep_selects (input_lines [] input)
      in (if sel = [] then 1 else 0, text_of_lines sel))"

definition or_true :: "int \<Rightarrow> int" where
  \<comment> \<open>\<open>list || true\<close>: \<open>true\<close> runs when the list's status is not 0, and exits with 0\<close>
  "or_true status = (if status = 0 then status else 0)"

definition sh :: "repo \<Rightarrow> proc \<Rightarrow> child_end" where
  \<comment> \<open>the status of a pipeline is the status of its last command\<close>
  "sh g p =
     (if p_cmd p = Shell symbolic_ref_cmd
      then (case symbolic_ref_HEAD g of (rc, out, err) \<Rightarrow> Exited rc out err)
      else if p_cmd p = Shell fixme_cmd
      then (case diff_cached g of
              (rc, out, err) \<Rightarrow>
                (case grep_iE out of (grep_rc, selected) \<Rightarrow> Exited (or_true grep_rc) selected err))
      else Exited 127 [] ''sh: command not found'')"

definition host :: "repo \<Rightarrow> system" where
  "host g = \<lparr>environ = [], absolute = (\<lambda>p. p), child = sh g\<rparr>"

text \<open>The lines of a diff that begin with \<open>+\<close>, and the marker in any letter-casing.\<close>

definition added_lines :: "string \<Rightarrow> string list" where
  "added_lines diff = filter (\<lambda>l. take 1 l = ''+'') (input_lines [] diff)"

definition removed_lines :: "string \<Rightarrow> string list" where
  "removed_lines diff = filter (\<lambda>l. take 1 l = ''-'') (input_lines [] diff)"

fun contains_marker :: "string \<Rightarrow> bool" where
  "contains_marker [] = match_literal_i ''FIXME'' []"
| "contains_marker (c # cs) = (match_literal_i ''FIXME'' (c # cs) \<or> contains_marker cs)"

section \<open>Example repositories\<close>

definition on_branch :: "string \<Rightarrow> int \<times> string \<times> string" where
  \<comment> \<open>\<open>git symbolic-ref HEAD\<close> on a branch: the full reference and a newline\<close>
  "on_branch name = (0, ''refs/heads/'' @ name @ [newline], [])"

definition detached_HEAD :: "int \<times> string \<times> string" where
  "detached_HEAD = (128, [], ''fatal: ref HEAD is not a symbolic ref'' @ [newline])"

definition diff_added_marker :: string where
  "diff_added_marker = text_of_lines
     [''--- a/calc.py'', ''+++ b/calc.py'', ''@@ -1 +1,2 @@'', '' total = a - b'',
      ''+    // FIXME: handle edge case'']"

definition diff_removed_marker :: string where
  "diff_removed_marker = text_of_lines
     [''--- a/calc.py'', ''+++ b/calc.py'', ''@@ -1 +1 @@'',
      ''-total = a + b  # FIXME: rounding'', ''+total = round(a + b)'']"

definition diff_context_marker :: string where
  "diff_context_marker = text_of_lines
     [''--- a/calc.py'', ''+++ b/calc.py'', ''@@ -1,2 +1,2 @@'',
      '' total = a + b  # fixme later'', ''-print(total)'', ''+print(round(total))'']"

definition diff_clean :: string where
  "diff_clean = text_of_lines
     [''--- a/calc.py'', ''+++ b/calc.py'', ''@@ -1 +1 @@'', ''-print(total)'',
      ''+print(round(total))'']"

section \<open>Properties of the command runner\<close>

lemma kwargs_simps [simp]:
  "k_capture_output (run_cmd_kwargs sys cmd cwd extra_env cap text timeout) = cap"
  "k_env (run_cmd_kwargs sys cmd cwd extra_env cap text timeout) = extra_env"
  "k_cmd (run_cmd_kwargs sys cmd cwd extra_env cap text timeout) = cmd"
  "k_timeout (run_cmd_kwargs sys cmd cwd extra_env cap text timeout) = timeout"
  by (simp_all add: run_cmd_kwargs_def)

lemma popen_shell [simp]:
  "popen sys (run_cmd_kwargs sys (Shell line) None None cap text None) = shell_proc sys line"
  by (simp add: popen_def run_cmd_kwargs_def shell_proc_def)

lemma run_cmd_shell:
  "run_cmd sys (Shell line) None None True True None st =
     ((case child sys (shell_proc sys line) of
         Exited rc out err \<Rightarrow>
           if rc \<noteq> 0 then Inl (CalledProcessError rc (Shell line) (Some out) (Some err))
           else Inr (Some (rstrip True out), Some (rstrip True err))
       | Expired \<Rightarrow> Inl TimeoutExpired
       | NotStarted \<Rightarrow> Inl OSError),
      st\<lparr>spawned := spawned st @ [shell_proc sys line]\<rparr>)"
  by (simp add: run_cmd_def subprocess_run_def Let_def split: child_end.splits)

text \<open>
  \<open>rstrip\<close> cuts off a run of whitespace at the end, and what it leaves does not end in
  whitespace.
\<close>

lemma rstrip_spec:
  "\<exists>ws. s = rstrip text s @ ws \<and> (\<forall>c \<in> set ws. isspace text c)
        \<and> (rstrip text s = [] \<or> \<not> isspace text (last (rstrip text s)))"
proof -
  let ?r = "rev s"
  have a: "?r = takeWhile (isspace text) ?r @ dropWhile (isspace text) ?r" by simp
  have "s = rev (dropWhile (isspace text) ?r) @ rev (takeWhile (isspace text) ?r)"
    by (metis a rev_append rev_rev_ident)
  moreover have "\<forall>c \<in> set (rev (takeWhile (isspace text) ?r)). isspace text c"
    by (auto dest: set_takeWhileD)
  moreover have "dropWhile (isspace text) ?r = []
      \<or> \<not> isspace text (hd (dropWhile (isspace text) ?r))"
    using hd_dropWhile by blast
  then have "rstrip text s = [] \<or> \<not> isspace text (last (rstrip text s))"
    by (auto simp: rstrip_def last_rev)
  ultimately show ?thesis unfolding rstrip_def by blast
qed

lemma rstrip_idem: "rstrip text (rstrip text s) = rstrip text s"
proof -
  have "dropWhile P (dropWhile P xs) = dropWhile P xs" for P and xs :: "char list"
    by (metis dropWhile_eq_self_iff hd_dropWhile)
  then show ?thesis by (simp add: rstrip_def)
qed

lemma rstrip_empty_iff: "rstrip text s = [] \<longleftrightarrow> (\<forall>c \<in> set s. isspace text c)"
  by (auto simp: rstrip_def dropWhile_eq_Nil_conv)

text \<open>
  C8. \<open>run_cmd\<close> raises \<open>CalledProcessError\<close> exactly when the child exits with a status
  other than 0, and the error carries the status, the command and the captured streams
  (absent when nothing was captured). When the child exits with status 0, \<open>run_cmd\<close>
  returns the two streams with trailing whitespace removed if capture was requested, and
  the pair \<open>(None, None)\<close> if not.
\<close>

theorem run_cmd_contract:
  assumes "child sys (popen sys (run_cmd_kwargs sys cmd cwd extra_env cap text timeout)) = e"
  shows "((\<exists>rc c out err. fst (run_cmd sys cmd cwd extra_env cap text timeout st)
              = Inl (CalledProcessError rc c out err))
          \<longleftrightarrow> (\<exists>rc out err. e = Exited rc out err \<and> rc \<noteq> 0))
       \<and> (\<forall>rc out err. e = Exited rc out err \<longrightarrow>
            fst (run_cmd sys cmd cwd extra_env cap text timeout st) =
              (if rc \<noteq> 0
               then Inl (CalledProcessError rc cmd (if cap then Some out else None)
                          (if cap then Some err else None))
               else if cap then Inr (Some (rstrip text out), Some (rstrip text err))
               else Inr (None, None)))"
  using assms
  by (cases e) (auto simp: run_cmd_def subprocess_run_def Let_def)

theorem run_cmd_contract_witness:
  "child (host \<lparr>symbolic_ref_HEAD = on_branch ''main'', diff_cached = (0, [], [])\<rparr>)
       (popen (host \<lparr>symbolic_ref_HEAD = on_branch ''main'', diff_cached = (0, [], [])\<rparr>)
          (run_cmd_kwargs (host \<lparr>symbolic_ref_HEAD = on_branch ''main'', diff_cached = (0, [], [])\<rparr>)
             (Shell symbolic_ref_cmd) None None True True None))
     = Exited 0 (''refs/heads/main'' @ [newline]) []
   \<and> fst (run_cmd (host \<lparr>symbolic_ref_HEAD = on_branch ''main'', diff_cached = (0, [], [])\<rparr>)
            (Shell symbolic_ref_cmd) None None True True None io0)
     = Inr (Some ''refs/heads/main'', Some [])"
proof -
  let ?sys = "host \<lparr>symbolic_ref_HEAD = on_branch ''main'', diff_cached = (0, [], [])\<rparr>"
  have h: "child ?sys (popen ?sys (run_cmd_kwargs ?sys (Shell symbolic_ref_cmd) None None
             True True None)) = Exited 0 (''refs/heads/main'' @ [newline]) []"
    by (simp add: host_def sh_def shell_proc_def on_branch_def)
  have r: "rstrip True (''refs/heads/main'' @ [newline]) = ''refs/heads/main''"
    by (simp add: rstrip_def isspace_def str_whitespace_def newline_def)
  from run_cmd_contract [OF h, of io0]
  have "fst (run_cmd ?sys (Shell symbolic_ref_cmd) None None True True None io0)
          = Inr (Some (rstrip True (''refs/heads/main'' @ [newline])), Some (rstrip True []))"
    by simp
  then show ?thesis
    using h r by (simp add: rstrip_def)
qed

lemma run_cmd_spawned:
  "spawned (snd (run_cmd sys cmd cwd extra_env cap text timeout st)) =
     spawned st @ [popen sys (run_cmd_kwargs sys cmd cwd extra_env cap text timeout)]"
  by (simp add: run_cmd_def Let_def split: sum.splits option.splits)

lemma popen_environ:
  "p_environ (popen sys (run_cmd_kwargs sys cmd cwd extra_env cap text timeout)) =
     (case extra_env of None \<Rightarrow> environ sys | Some d \<Rightarrow> d)"
  by (simp add: popen_def)

text \<open>
  C9. With a non-empty \<open>extra_env\<close> the merged environment (the process environment
  overlaid with the extra entries) is computed into \<open>updated_env\<close>, but the child is
  started with \<open>extra_env\<close> itself as its whole environment: the process environment has
  no part in the run.
\<close>

theorem extra_env_replaces_environment:
  assumes "d \<noteq> []"
  shows "updated_env sys (Some d) = Some (dict_update (environ sys) d)
       \<and> map p_environ (spawned (snd (run_cmd sys cmd cwd (Some d) cap text timeout st)))
           = map p_environ (spawned st) @ [d]
       \<and> run_cmd (sys\<lparr>environ := e\<rparr>) cmd cwd (Some d) cap text timeout st
           = run_cmd sys cmd cwd (Some d) cap text timeout st"
proof -
  have "updated_env sys (Some d) = Some (dict_update (environ sys) d)"
    using assms by (simp add: updated_env_def truthy_def)
  moreover have "map p_environ (spawned (snd (run_cmd sys cmd cwd (Some d) cap text timeout st)))
      = map p_environ (spawned st) @ [d]"
    by (simp add: run_cmd_spawned popen_environ)
  moreover have "run_cmd (sys\<lparr>environ := e\<rparr>) cmd cwd (Some d) cap text timeout st
      = run_cmd sys cmd cwd (Some d) cap text timeout st"
  proof -
    let ?k = "run_cmd_kwargs sys cmd cwd (Some d) cap text timeout"
    have k: "run_cmd_kwargs (sys\<lparr>environ := e\<rparr>) cmd cwd (Some d) cap text timeout = ?k"
      by (simp add: run_cmd_kwargs_def split: option.splits path_or_str.splits)
    have p: "popen (sys\<lparr>environ := e\<rparr>) ?k = popen sys ?k"
      by (simp add: popen_def)
    have s: "subprocess_run (sys\<lparr>environ := e\<rparr>) ?k = subprocess_run sys ?k"
      by (simp add: subprocess_run_def p)
    show ?thesis
      unfolding run_cmd_def k Let_def p s ..
  qed
  ultimately show ?thesis by blast
qed

theorem extra_env_replaces_environment_witness:
  "[(''LANG'', ''C'')] \<noteq> ([] :: environment)
   \<and> updated_env ((host \<lparr>symbolic_ref_HEAD = on_branch ''main'', diff_cached = (0, [], [])\<rparr>)
         \<lparr>environ := [(''PATH'', ''/usr/bin'')]\<rparr>) (Some [(''LANG'', ''C'')])
       = Some [(''PATH'', ''/usr/bin''), (''LANG'', ''C'')]
   \<and> map p_environ (spawned (snd (run_cmd
         ((host \<lparr>symbolic_ref_HEAD = on_branch ''main'', diff_cached = (0, [], [])\<rparr>)
            \<lparr>environ := [(''PATH'', ''/usr/bin'')]\<rparr>)
         (Shell symbolic_ref_cmd) None (Some [(''LANG'', ''C'')]) True True None io0)))
       = [[(''LANG'', ''C'')]]"
proof -
  have h: "[(''LANG'', ''C'')] \<noteq> ([] :: environment)" by simp
  from extra_env_replaces_environment [OF h,
      of "(host \<lparr>symbolic_ref_HEAD = on_branch ''main'', diff_cached = (0, [], [])\<rparr>)
            \<lparr>environ := [(''PATH'', ''/usr/bin'')]\<rparr>"
         "Shell symbolic_ref_cmd" None True True None io0]
  show ?thesis
    by (simp add: dict_update_def io0_def host_def)
qed

text \<open>
  C10. With the empty dictionary as \<open>extra_env\<close> the merge is skipped, the empty dictionary
  is still what \<open>subprocess.run\<close> receives, and the child starts with an empty
  environment. The child's environment is the dictionary whenever one is given; only
  with \<open>None\<close> is it the environment of the calling process.
\<close>

theorem empty_extra_env_gives_empty_environment:
  "updated_env sys (Some []) = None
   \<and> map p_environ (spawned (snd (run_cmd sys cmd cwd (Some []) cap text timeout st)))
       = map p_environ (spawned st) @ [[]]
   \<and> map p_environ (spawned (snd (run_cmd sys cmd cwd (Some d) cap text timeout st)))
       = map p_environ (spawned st) @ [d]
   \<and> map p_environ (spawned (snd (run_cmd sys cmd cwd None cap text timeout st)))
       = map p_environ (spawned st) @ [environ sys]"
  by (simp add: updated_env_def truthy_def run_cmd_spawned popen_environ)


section \<open>Properties of the hook\<close>

lemma join_split: "join [sep] (split sep s) = s"
proof (induction s)
  case Nil
  then show ?case by simp
next
  case (Cons c s)
  show ?case
  proof (cases "split sep s")
    case Nil
    with Cons show ?thesis by (cases "c = sep") auto
  next
    case (Cons w ws)
    with Cons.IH show ?thesis by (cases ws; cases "c = sep") auto
  qed
qed

lemma split_refs_heads:
  "drop 2 (split (CHR ''/'') (''refs/heads/'' @ name)) = split (CHR ''/'') name"
proof -
  have ne: "split (CHR ''/'') s \<noteq> []" for s
    by (induction s) (auto split: list.splits)
  show ?thesis
    using ne [of name] by (cases "split (CHR ''/'') name") auto
qed

lemma strip_ref:
  assumes "rstrip True out = ''refs/heads/'' @ name"
  shows "strip (rstrip True out) = ''refs/heads/'' @ name"
proof -
  have "rstrip True (''refs/heads/'' @ name) = ''refs/heads/'' @ name"
    using rstrip_idem [of True out] assms by simp
  then show ?thesis
    using assms by (simp add: strip_def isspace_def str_whitespace_def)
qed

lemma is_on_branch_ref:
  assumes "child sys (shell_proc sys symbolic_ref_cmd) = Exited 0 out err"
      and "rstrip True out = ''refs/heads/'' @ name"
  shows "is_on_branch sys protected st =
           (Inr (name \<in> protected), st\<lparr>spawned := spawned st @ [shell_proc sys symbolic_ref_cmd]\<rparr>)"
proof -
  have r: "strip (rstrip True out) = ''refs/heads/'' @ name"
    by (rule strip_ref [OF assms(2)])
  have "join ''/'' (drop 2 (split (CHR ''/'') (strip (rstrip True out)))) = name"
    unfolding r split_refs_heads by (rule join_split)
  then show ?thesis
    using assms(1) by (simp add: is_on_branch_def run_cmd_shell Let_def)
qed

lemma is_on_branch_failed:
  assumes "child sys (shell_proc sys symbolic_ref_cmd) = Exited rc out err" and "rc \<noteq> 0"
  shows "is_on_branch sys protected st =
           (Inr False, st\<lparr>spawned := spawned st @ [shell_proc sys symbolic_ref_cmd]\<rparr>)"
  using assms by (simp add: is_on_branch_def run_cmd_shell)

lemma has_fixme_comments_exited:
  assumes "child sys (shell_proc sys fixme_cmd) = Exited 0 out err"
  shows "fst (has_fixme_comments sys st) = Inr (rstrip True out \<noteq> [])"
  using assms by (simp add: has_fixme_comments_def run_cmd_shell)


lemma main_parsed:
  "parse_args None False argv = Inr branch \<Longrightarrow> main sys argv st = decide sys (protected_set branch) st"
  by (simp add: main_def)

lemma decide_not_on_branch:
  "is_on_branch sys protected st = (Inr False, st') \<Longrightarrow> decide sys protected st = (Inr 0, st')"
  by (simp add: decide_def)

lemma cmds_differ: "symbolic_ref_cmd \<noteq> fixme_cmd"
  by (simp add: symbolic_ref_cmd_def fixme_cmd_def)

text \<open>
  C5. When \<open>git symbolic-ref HEAD\<close> exits with a status other than 0 (detached HEAD, not
  a repository), \<open>is_on_branch\<close> returns \<open>False\<close> for every protected set instead of raising,
  and the run returns exit code 0.
\<close>

theorem branch_lookup_failure_allows:
  assumes "child sys (shell_proc sys symbolic_ref_cmd) = Exited rc out err"
      and "rc \<noteq> 0"
      and "parse_args None False argv = Inr branch"
  shows "fst (is_on_branch sys protected st) = Inr False \<and> fst (main sys argv st) = Inr 0"
  using assms
  by (simp add: main_parsed is_on_branch_failed decide_not_on_branch [OF is_on_branch_failed])

theorem branch_lookup_failure_allows_witness:
  "child (host \<lparr>symbolic_ref_HEAD = detached_HEAD, diff_cached = (0, diff_added_marker, [])\<rparr>)
       (shell_proc (host \<lparr>symbolic_ref_HEAD = detached_HEAD, diff_cached = (0, diff_added_marker, [])\<rparr>)
          symbolic_ref_cmd)
     = Exited 128 [] (''fatal: ref HEAD is not a symbolic ref'' @ [newline])
   \<and> (128 :: int) \<noteq> 0
   \<and> parse_args None False [] = Inr None
   \<and> fst (is_on_branch (host \<lparr>symbolic_ref_HEAD = detached_HEAD, diff_cached = (0, diff_added_marker, [])\<rparr>)
            {''master'', ''main''} io0) = Inr False
   \<and> fst (main (host \<lparr>symbolic_ref_HEAD = detached_HEAD, diff_cached = (0, diff_added_marker, [])\<rparr>)
            [] io0) = Inr 0"
proof -
  let ?sys = "host \<lparr>symbolic_ref_HEAD = detached_HEAD, diff_cached = (0, diff_added_marker, [])\<rparr>"
  have h: "child ?sys (shell_proc ?sys symbolic_ref_cmd)
             = Exited 128 [] (''fatal: ref HEAD is not a symbolic ref'' @ [newline])"
    by (simp add: host_def sh_def shell_proc_def detached_HEAD_def)
  have n: "(128 :: int) \<noteq> 0" by simp
  have p: "parse_args None False [] = Inr None" by simp
  from branch_lookup_failure_allows [OF h n p, of "{''master'', ''main''}" io0]
  show ?thesis using h p by simp
qed

lemma rstrip_ref:
  "rstrip True (''refs/heads/'' @ name @ [newline]) = ''refs/heads/'' @ rstrip True name"
proof -
  let ?P = "isspace True"
  have nl: "?P newline"
    by (simp add: isspace_def str_whitespace_def newline_def)
  have sl: "dropWhile ?P (rev ''refs/heads/'') = rev ''refs/heads/''"
    by (simp add: isspace_def str_whitespace_def)
  have "dropWhile ?P (rev (''refs/heads/'' @ name @ [newline]))
          = dropWhile ?P (rev name @ rev ''refs/heads/'')"
    using nl by simp
  also have "\<dots> = dropWhile ?P (rev name) @ rev ''refs/heads/''"
    using sl by (simp add: dropWhile_append del: rev.simps)
  finally show ?thesis
    by (simp add: rstrip_def)
qed

lemma is_on_branch_branch:
  assumes "child sys (shell_proc sys symbolic_ref_cmd)
             = Exited 0 (''refs/heads/'' @ name @ [newline]) err"
  shows "is_on_branch sys protected st =
           (Inr (rstrip True name \<in> protected),
            st\<lparr>spawned := spawned st @ [shell_proc sys symbolic_ref_cmd]\<rparr>)"
  by (rule is_on_branch_ref [OF assms rstrip_ref])

text \<open>
  C7, as stated, fails. \<open>run_cmd\<close> removes the trailing whitespace of the output, the
  newline \<open>git\<close> prints and with it any whitespace character that ends the branch name:
  on the branch named \<open>main\<close> followed by U+00A0, \<open>is_on_branch\<close> returns \<open>True\<close> for the
  protected set \<open>{main}\<close>, which does not hold that name, and \<open>False\<close> for the set that
  holds exactly that name.
\<close>

theorem trailing_whitespace_name_mismatch:
  "fst (is_on_branch
          (host \<lparr>symbolic_ref_HEAD = on_branch (''main'' @ [CHR 0xA0]), diff_cached = (0, [], [])\<rparr>)
          {''main''} io0) = Inr True
   \<and> ''main'' @ [CHR 0xA0] \<notin> {''main''}
   \<and> fst (is_on_branch
          (host \<lparr>symbolic_ref_HEAD = on_branch (''main'' @ [CHR 0xA0]), diff_cached = (0, [], [])\<rparr>)
          {''main'' @ [CHR 0xA0]} io0) = Inr False
   \<and> ''main'' @ [CHR 0xA0] \<in> {''main'' @ [CHR 0xA0]}"
  by code_simp

text \<open>
  C7, amended. For every reference \<open>refs/heads/<name>\<close>, splitting on \<open>/\<close> and joining the
  segments after the first two gives \<open>name\<close> back, slashes included. \<open>is_on_branch\<close>
  returns whether \<open>name\<close> without its trailing whitespace is in the protected set; for a
  name that does not end in whitespace this is whether that exact name is in the set.
\<close>

theorem is_on_branch_reconstructs_name:
  assumes "child sys (shell_proc sys symbolic_ref_cmd)
             = Exited 0 (''refs/heads/'' @ name @ [newline]) err"
  shows "join ''/'' (drop 2 (split (CHR ''/'') (''refs/heads/'' @ name))) = name
       \<and> fst (is_on_branch sys protected st) = Inr (rstrip True name \<in> protected)
       \<and> (rstrip True name = name \<longrightarrow>
            fst (is_on_branch sys protected st) = Inr (name \<in> protected))"
proof -
  have "join ''/'' (drop 2 (split (CHR ''/'') (''refs/heads/'' @ name))) = name"
    unfolding split_refs_heads by (rule join_split)
  then show ?thesis
    by (simp add: is_on_branch_branch [OF assms])
qed

theorem is_on_branch_reconstructs_name_witness:
  "child (host \<lparr>symbolic_ref_HEAD = on_branch ''release/2024-01'', diff_cached = (0, [], [])\<rparr>)
       (shell_proc (host \<lparr>symbolic_ref_HEAD = on_branch ''release/2024-01'', diff_cached = (0, [], [])\<rparr>)
          symbolic_ref_cmd)
     = Exited 0 (''refs/heads/'' @ ''release/2024-01'' @ [newline]) []
   \<and> rstrip True ''release/2024-01'' = ''release/2024-01''
   \<and> join ''/'' (drop 2 (split (CHR ''/'') (''refs/heads/'' @ ''release/2024-01''))) = ''release/2024-01''
   \<and> fst (is_on_branch (host \<lparr>symbolic_ref_HEAD = on_branch ''release/2024-01'', diff_cached = (0, [], [])\<rparr>)
            {''release/2024-01''} io0) = Inr True
   \<and> fst (is_on_branch (host \<lparr>symbolic_ref_HEAD = on_branch ''release/2024-01'', diff_cached = (0, [], [])\<rparr>)
            {''release'', ''2024-01''} io0) = Inr False"
proof -
  let ?sys = "host \<lparr>symbolic_ref_HEAD = on_branch ''release/2024-01'', diff_cached = (0, [], [])\<rparr>"
  have h: "child ?sys (shell_proc ?sys symbolic_ref_cmd)
             = Exited 0 (''refs/heads/'' @ ''release/2024-01'' @ [newline]) []"
    by (simp add: host_def sh_def shell_proc_def on_branch_def)
  have r: "rstrip True ''release/2024-01'' = ''release/2024-01''"
    by (simp add: rstrip_def isspace_def str_whitespace_def)
  from is_on_branch_reconstructs_name [OF h, of "{''release/2024-01''}" io0]
       is_on_branch_reconstructs_name [OF h, of "{''release'', ''2024-01''}" io0]
  show ?thesis using h r by simp
qed

text \<open>
  C3, as stated, fails. The branch named \<open>main\<close> followed by U+00A0 is not in the
  protected set \<open>{master, main}\<close>, yet the run reads it as \<open>main\<close>, runs the diff command
  line and returns exit code 1 when the staged diff adds a marker, 0 when it does not:
  the result depends on the staged content.
\<close>

theorem trimmed_name_protected_scans:
  "''main'' @ [CHR 0xA0] \<notin> protected_set None
   \<and> fst (main (host \<lparr>symbolic_ref_HEAD = on_branch (''main'' @ [CHR 0xA0]),
                       diff_cached = (0, diff_added_marker, [])\<rparr>) [] io0) = Inr 1
   \<and> map p_cmd (spawned (snd (main (host \<lparr>symbolic_ref_HEAD = on_branch (''main'' @ [CHR 0xA0]),
                       diff_cached = (0, diff_added_marker, [])\<rparr>) [] io0)))
       = [Shell symbolic_ref_cmd, Shell fixme_cmd]
   \<and> fst (main (host \<lparr>symbolic_ref_HEAD = on_branch (''main'' @ [CHR 0xA0]),
                       diff_cached = (0, diff_clean, [])\<rparr>) [] io0) = Inr 0"
  by code_simp

text \<open>
  C3, amended. When the name of the current branch, without its trailing whitespace, is
  not in the protected set, the run returns exit code 0, the branch lookup is the only
  process it spawns (the diff command line is never run) and nothing is printed; a run on
  a system that differs only in what the diff command line does has the same result and
  the same effects.
\<close>

theorem unprotected_branch_skips_scan:
  assumes "parse_args None False argv = Inr branch"
      and "child sys (shell_proc sys symbolic_ref_cmd)
             = Exited 0 (''refs/heads/'' @ name @ [newline]) err"
      and "rstrip True name \<notin> protected_set branch"
      and "environ sys' = environ sys"
      and "\<forall>p. p_cmd p \<noteq> Shell fixme_cmd \<longrightarrow> child sys' p = child sys p"
  shows "main sys argv st = (Inr 0, st\<lparr>spawned := spawned st @ [shell_proc sys symbolic_ref_cmd]\<rparr>)
       \<and> p_cmd (shell_proc sys symbolic_ref_cmd) \<noteq> Shell fixme_cmd
       \<and> main sys' argv st = main sys argv st"
proof -
  let ?P = "protected_set branch"
  have b: "is_on_branch sys ?P st
             = (Inr False, st\<lparr>spawned := spawned st @ [shell_proc sys symbolic_ref_cmd]\<rparr>)"
    using is_on_branch_branch [OF assms(2), of ?P st] assms(3) by simp
  have m: "main sys argv st
             = (Inr 0, st\<lparr>spawned := spawned st @ [shell_proc sys symbolic_ref_cmd]\<rparr>)"
    using assms(1) b by (simp add: main_parsed decide_not_on_branch)
  have c: "p_cmd (shell_proc sys symbolic_ref_cmd) \<noteq> Shell fixme_cmd"
    by (simp add: shell_proc_def cmds_differ)
  have s: "shell_proc sys' symbolic_ref_cmd = shell_proc sys symbolic_ref_cmd"
    using assms(4) by (simp add: shell_proc_def)
  have "child sys' (shell_proc sys' symbolic_ref_cmd)
          = Exited 0 (''refs/heads/'' @ name @ [newline]) err"
    using assms(2,5) c s by simp
  from is_on_branch_branch [OF this, of ?P st] assms(3)
  have "is_on_branch sys' ?P st
          = (Inr False, st\<lparr>spawned := spawned st @ [shell_proc sys symbolic_ref_cmd]\<rparr>)"
    by (simp add: s)
  then have "main sys' argv st
          = (Inr 0, st\<lparr>spawned := spawned st @ [shell_proc sys symbolic_ref_cmd]\<rparr>)"
    using assms(1) by (simp add: main_parsed decide_not_on_branch)
  with m c show ?thesis by simp
qed

theorem unprotected_branch_skips_scan_witness:
  "parse_args None False [] = Inr None
   \<and> child (host \<lparr>symbolic_ref_HEAD = on_branch ''feature/x'', diff_cached = (0, diff_added_marker, [])\<rparr>)
       (shell_proc (host \<lparr>symbolic_ref_HEAD = on_branch ''feature/x'', diff_cached = (0, diff_added_marker, [])\<rparr>)
          symbolic_ref_cmd)
     = Exited 0 (''refs/heads/'' @ ''feature/x'' @ [newline]) []
   \<and> rstrip True ''feature/x'' \<notin> protected_set None
   \<and> fst (main (host \<lparr>symbolic_ref_HEAD = on_branch ''feature/x'', diff_cached = (0, diff_added_marker, [])\<rparr>)
            [] io0) = Inr 0
   \<and> main (host \<lparr>symbolic_ref_HEAD = on_branch ''feature/x'', diff_cached = (0, diff_clean, [])\<rparr>) [] io0
     = main (host \<lparr>symbolic_ref_HEAD = on_branch ''feature/x'', diff_cached = (0, diff_added_marker, [])\<rparr>) [] io0"
proof -
  let ?sys = "host \<lparr>symbolic_ref_HEAD = on_branch ''feature/x'', diff_cached = (0, diff_added_marker, [])\<rparr>"
  let ?sys' = "host \<lparr>symbolic_ref_HEAD = on_branch ''feature/x'', diff_cached = (0, diff_clean, [])\<rparr>"
  have p: "parse_args None False [] = Inr None" by simp
  have h: "child ?sys (shell_proc ?sys symbolic_ref_cmd)
             = Exited 0 (''refs/heads/'' @ ''feature/x'' @ [newline]) []"
    by (simp add: host_def sh_def shell_proc_def on_branch_def)
  have n: "rstrip True ''feature/x'' \<notin> protected_set None"
    by (simp add: protected_set_def rstrip_def isspace_def str_whitespace_def)
  have e: "environ ?sys' = environ ?sys"
    by (simp add: host_def)
  have d: "\<forall>p. p_cmd p \<noteq> Shell fixme_cmd \<longrightarrow> child ?sys' p = child ?sys p"
    by (simp add: host_def sh_def)
  from unprotected_branch_skips_scan [OF p h n e d, of io0]
  show ?thesis using p h n by simp
qed

text \<open>
  C6. Without a \<open>--branch\<close> flag the protected set is \<open>{master, main}\<close>; with
  \<open>--branch foo --branch bar\<close> it is \<open>{foo, bar}\<close>, and in general the set of the values
  given: the defaults are dropped.
\<close>

theorem protected_set_from_flags:
  "parse_args None False [] = Inr None
   \<and> protected_set None = {''master'', ''main''}
   \<and> main sys [] st = decide sys {''master'', ''main''} st
   \<and> parse_args None False [''--branch'', ''foo'', ''--branch'', ''bar''] = Inr (Some [''foo'', ''bar''])
   \<and> protected_set (Some [''foo'', ''bar'']) = {''foo'', ''bar''}
   \<and> main sys [''--branch'', ''foo'', ''--branch'', ''bar''] st = decide sys {''foo'', ''bar''} st
   \<and> protected_set (Some (b # bs)) = set (b # bs)"
  by (simp add: main_def protected_set_def append_value_def)


section \<open>The diff filter and the exit code\<close>

lemma dotstar_is_contains: "match_dotstar_FIXME s = contains_marker s"
  by (induction s) simp_all

lemma grep_selects_plus: "grep_selects l \<Longrightarrow> CHR ''+'' \<in> set l"
  by (induction l) auto

lemma grep_selects_marker: "grep_selects l \<Longrightarrow> contains_marker l"
  by (induction l) (auto simp: dotstar_is_contains)

lemma added_line_selected:
  assumes "take 1 l = ''+''" and "contains_marker l"
  shows "grep_selects l"
proof (cases l)
  case Nil
  with assms show ?thesis by simp
next
  case (Cons c cs)
  with assms(1) have c: "c = CHR ''+''" by simp
  have "to_lower (CHR ''F'') \<noteq> to_lower (CHR ''+'')"
    by (simp add: to_lower_def)
  then have "\<not> match_literal_i ''FIXME'' (CHR ''+'' # cs)"
    by simp
  with assms(2) Cons c have "contains_marker cs"
    by (simp del: match_literal_i.simps)
  with Cons c show ?thesis by (simp add: dotstar_is_contains)
qed

lemma rstrip_selected:
  assumes "\<forall>l \<in> set sel. CHR ''+'' \<in> set l"
  shows "rstrip True (text_of_lines sel) = [] \<longleftrightarrow> sel = []"
proof
  assume e: "rstrip True (text_of_lines sel) = []"
  show "sel = []"
  proof (rule ccontr)
    assume "sel \<noteq> []"
    then obtain l where l: "l \<in> set sel" by (cases sel) auto
    with assms have "CHR ''+'' \<in> set (text_of_lines sel)"
      by (auto simp: text_of_lines_def)
    with e have "isspace True (CHR ''+'')"
      by (simp add: rstrip_empty_iff)
    then show False
      by (simp add: isspace_def str_whitespace_def)
  qed
next
  assume "sel = []"
  then show "rstrip True (text_of_lines sel) = []"
    by (simp add: text_of_lines_def rstrip_def)
qed

lemma grep_output_blank:
  "rstrip True (snd (grep_iE d)) = [] \<longleftrightarrow> filter grep_selects (input_lines [] d) = []"
  unfolding grep_iE_def Let_def snd_conv
  by (rule rstrip_selected) (simp add: grep_selects_plus)

lemma host_symbolic_ref:
  "symbolic_ref_HEAD g = (rc, out, err) \<Longrightarrow>
     child (host g) (shell_proc (host g) symbolic_ref_cmd) = Exited rc out err"
  by (simp add: host_def sh_def shell_proc_def)

lemma host_fixme:
  "diff_cached g = (rc, d, derr) \<Longrightarrow>
     child (host g) (shell_proc (host g) fixme_cmd) = Exited 0 (snd (grep_iE d)) derr"
  by (simp add: host_def sh_def shell_proc_def cmds_differ [symmetric] or_true_def
      split: prod.splits)

lemma decide_fst:
  "fst (decide sys protected st) =
     (case fst (is_on_branch sys protected st) of
        Inl e \<Rightarrow> Inl e
      | Inr False \<Rightarrow> Inr 0
      | Inr True \<Rightarrow>
          (case fst (has_fixme_comments sys (snd (is_on_branch sys protected st))) of
             Inl e \<Rightarrow> Inl e
           | Inr True \<Rightarrow> Inr 1
           | Inr False \<Rightarrow> Inr 0))"
proof -
  obtain r st1 where a: "is_on_branch sys protected st = (r, st1)"
    by (cases "is_on_branch sys protected st")
  obtain r2 st2 where b: "has_fixme_comments sys st1 = (r2, st2)"
    by (cases "has_fixme_comments sys st1")
  show ?thesis
    by (simp add: decide_def a b split: sum.splits bool.splits)
qed

lemma decide_protected:
  assumes "child sys (shell_proc sys symbolic_ref_cmd) = Exited 0 out err"
      and "rstrip True out = ''refs/heads/'' @ name"
      and "name \<in> protected"
  shows "fst (decide sys protected st) =
           (case fst (has_fixme_comments sys
                        (st\<lparr>spawned := spawned st @ [shell_proc sys symbolic_ref_cmd]\<rparr>)) of
              Inl e \<Rightarrow> Inl e
            | Inr True \<Rightarrow> Inr 1
            | Inr False \<Rightarrow> Inr 0)"
  using assms(3) by (simp add: decide_fst is_on_branch_ref [OF assms(1,2)])

lemma host_decide_protected:
  assumes "symbolic_ref_HEAD g = (0, out, err)"
      and "rstrip True out = ''refs/heads/'' @ name"
      and "name \<in> protected"
      and "diff_cached g = (rc, d, derr)"
  shows "fst (decide (host g) protected st) =
           Inr (if filter grep_selects (input_lines [] d) = [] then 0 else 1)"
  using decide_protected [OF host_symbolic_ref [OF assms(1)] assms(2,3), of st]
  by (simp add: has_fixme_comments_exited [OF host_fixme [OF assms(4)]] grep_output_blank)

text \<open>
  What the filter selects: the lines in which a plus sign stands somewhere before the
  marker, wherever the plus sign is.
\<close>

lemma grep_selects_iff:
  "grep_selects l \<longleftrightarrow> (\<exists>pre post. l = pre @ ''+'' @ post \<and> contains_marker post)"
proof (induction l)
  case Nil
  then show ?case by simp
next
  case (Cons c cs)
  show ?case
  proof
    assume "grep_selects (c # cs)"
    then consider "c = CHR ''+''" "contains_marker cs" | "grep_selects cs"
      by (auto simp: dotstar_is_contains)
    then show "\<exists>pre post. c # cs = pre @ ''+'' @ post \<and> contains_marker post"
    proof cases
      case 1
      then have "c # cs = [] @ ''+'' @ cs \<and> contains_marker cs" by simp
      then show ?thesis by blast
    next
      case 2
      with Cons.IH obtain pre post where "cs = pre @ ''+'' @ post" "contains_marker post"
        by blast
      then have "c # cs = (c # pre) @ ''+'' @ post \<and> contains_marker post" by simp
      then show ?thesis by blast
    qed
  next
    assume "\<exists>pre post. c # cs = pre @ ''+'' @ post \<and> contains_marker post"
    then obtain pre post where e: "c # cs = pre @ ''+'' @ post" and m: "contains_marker post"
      by blast
    show "grep_selects (c # cs)"
    proof (cases pre)
      case Nil
      with e m show ?thesis by (simp add: dotstar_is_contains)
    next
      case (Cons a pre')
      with e have "cs = pre' @ ''+'' @ post" by simp
      with m Cons.IH have "grep_selects cs" by blast
      then show ?thesis by simp
    qed
  qed
qed

lemma is_on_branch_outcome:
  "is_on_branch sys protected st =
     ((case child sys (shell_proc sys symbolic_ref_cmd) of
         Exited rc out err \<Rightarrow>
           if rc \<noteq> 0 then Inr False
           else Inr (join ''/'' (drop 2 (split (CHR ''/'') (strip (rstrip True out)))) \<in> protected)
       | Expired \<Rightarrow> Inl TimeoutExpired
       | NotStarted \<Rightarrow> Inl OSError),
      st\<lparr>spawned := spawned st @ [shell_proc sys symbolic_ref_cmd]\<rparr>)"
  by (simp add: is_on_branch_def run_cmd_shell Let_def split: child_end.splits)

lemma has_fixme_comments_outcome:
  "fst (has_fixme_comments sys st) =
     (case child sys (shell_proc sys fixme_cmd) of
        Exited rc out err \<Rightarrow>
          if rc \<noteq> 0 then Inl (CalledProcessError rc (Shell fixme_cmd) (Some out) (Some err))
          else Inr (rstrip True out \<noteq> [])
      | Expired \<Rightarrow> Inl TimeoutExpired
      | NotStarted \<Rightarrow> Inl OSError)"
  by (simp add: has_fixme_comments_def run_cmd_shell split: child_end.splits)

text \<open>
  On a protected branch an added line that contains the marker in any letter-casing blocks
  the commit, and a diff with no marker on any line lets it through.
\<close>

lemma added_marker_blocks:
  assumes "parse_args None False argv = Inr branch"
      and "symbolic_ref_HEAD g = (0, out, err)"
      and "rstrip True out = ''refs/heads/'' @ name"
      and "name \<in> protected_set branch"
      and "diff_cached g = (rc, d, derr)"
      and "l \<in> set (added_lines d)"
      and "contains_marker l"
  shows "fst (main (host g) argv st) = Inr 1"
proof -
  from assms(6) have "l \<in> set (input_lines [] d)" "take 1 l = ''+''"
    by (simp_all add: added_lines_def)
  with assms(7) have "l \<in> set (filter grep_selects (input_lines [] d))"
    by (simp add: added_line_selected)
  then have "filter grep_selects (input_lines [] d) \<noteq> []"
    by (metis empty_iff list.set(1))
  then show ?thesis
    by (simp add: main_parsed [OF assms(1)] host_decide_protected [OF assms(2-5)])
qed

lemma no_marker_allows:
  assumes "parse_args None False argv = Inr branch"
      and "symbolic_ref_HEAD g = (0, out, err)"
      and "rstrip True out = ''refs/heads/'' @ name"
      and "name \<in> protected_set branch"
      and "diff_cached g = (rc, d, derr)"
      and "filter contains_marker (input_lines [] d) = []"
  shows "fst (main (host g) argv st) = Inr 0"
proof -
  from assms(6) have "filter grep_selects (input_lines [] d) = []"
    by (auto simp: filter_empty_conv dest: grep_selects_marker)
  then show ?thesis
    by (simp add: main_parsed [OF assms(1)] host_decide_protected [OF assms(2-5)])
qed

text \<open>
  C1. The claim asks for exit code 0 on a protected branch when no added line contains the
  marker. On branch \<open>main\<close>, with a staged diff whose only marker stands on an unchanged
  line after a plus sign (\<open>total = a + b  # fixme later\<close>), no added line contains the
  marker and the run returns exit code 1.
\<close>

theorem context_line_marker_blocks:
  "filter contains_marker (added_lines diff_context_marker) = []
   \<and> fst (main (host \<lparr>symbolic_ref_HEAD = on_branch ''main'',
                       diff_cached = (0, diff_context_marker, [])\<rparr>) [] io0) = Inr 1"
  by code_simp

text \<open>
  C2. The claim asks that a removed line never causes a block. On branch \<open>main\<close>, with a
  staged diff whose only marker stands on the removed line
  \<open>-total = a + b  # FIXME: rounding\<close>, the run returns exit code 1.
\<close>

theorem removed_line_marker_blocks:
  "filter contains_marker (added_lines diff_removed_marker) = []
   \<and> filter contains_marker (removed_lines diff_removed_marker)
       = [''-total = a + b  # FIXME: rounding'']
   \<and> fst (main (host \<lparr>symbolic_ref_HEAD = on_branch ''main'',
                       diff_cached = (0, diff_removed_marker, [])\<rparr>) [] io0) = Inr 1"
  by code_simp

text \<open>
  C4, as stated, fails: on branch \<open>main\<close>, when \<open>git diff --cached\<close> exits with status 128
  and writes nothing to its standard output, the run returns exit code 0 and prints
  nothing.
\<close>

theorem diff_failure_passes_silently:
  "fst (diff_cached \<lparr>symbolic_ref_HEAD = on_branch ''main'',
          diff_cached = (128, [], ''fatal: index file corrupt'' @ [newline])\<rparr>) \<noteq> 0
   \<and> fst (main (host \<lparr>symbolic_ref_HEAD = on_branch ''main'',
             diff_cached = (128, [], ''fatal: index file corrupt'' @ [newline])\<rparr>) [] io0) = Inr 0
   \<and> printed (snd (main (host \<lparr>symbolic_ref_HEAD = on_branch ''main'',
             diff_cached = (128, [], ''fatal: index file corrupt'' @ [newline])\<rparr>) [] io0)) = []"
  by code_simp

lemma has_fixme_comments_printed:
  "fst (has_fixme_comments sys st) \<noteq> Inr True \<Longrightarrow>
     printed (snd (has_fixme_comments sys st)) = printed st"
  by (simp add: has_fixme_comments_def run_cmd_shell split: child_end.splits if_splits)

lemma decide_printed:
  assumes "fst (decide sys protected st) = Inr 0"
  shows "printed (snd (decide sys protected st)) = printed st"
proof -
  let ?st1 = "st\<lparr>spawned := spawned st @ [shell_proc sys symbolic_ref_cmd]\<rparr>"
  obtain r where a: "is_on_branch sys protected st = (r, ?st1)"
    by (simp add: is_on_branch_outcome)
  obtain r2 st2 where b: "has_fixme_comments sys ?st1 = (r2, st2)"
    by (cases "has_fixme_comments sys ?st1")
  show ?thesis
  proof (cases "r = Inr True")
    case True
    with assms a b have "r2 \<noteq> Inr True"
      by (auto simp: decide_def split: sum.splits bool.splits)
    with has_fixme_comments_printed [of sys ?st1] b have "printed st2 = printed st"
      by simp
    with True a b show ?thesis
      by (simp add: decide_def split: sum.splits bool.splits)
  next
    case False
    with a show ?thesis
      by (cases r) (auto simp: decide_def split: bool.splits)
  qed
qed

text \<open>
  C4, amended. A non-zero exit status of the branch lookup counts as "not protected" and
  the run returns 0. Inside the diff command line a non-zero exit status of \<open>git diff\<close> or
  of \<open>grep\<close> is swallowed too: the line ends in \<open>|| true\<close>, so the shell exits with status 0
  and the run decides on the captured output alone; whenever the run returns 0 it has
  printed nothing. A non-zero exit status of the shell in the diff step
  (\<open>CalledProcessError\<close>), and in either step a timeout or a process that cannot be
  started, is fatal: it leaves \<open>main\<close> as an exception.
\<close>

theorem failures_swallowed_or_fatal:
  assumes "parse_args None False argv = Inr branch"
  shows "fst (main sys argv st) =
     (case child sys (shell_proc sys symbolic_ref_cmd) of
        Exited rc out err \<Rightarrow>
          if rc \<noteq> 0 then Inr 0
          else if join ''/'' (drop 2 (split (CHR ''/'') (strip (rstrip True out))))
                    \<notin> protected_set branch
          then Inr 0
          else (case child sys (shell_proc sys fixme_cmd) of
                  Exited rc' out' err' \<Rightarrow>
                    if rc' \<noteq> 0
                    then Inl (CalledProcessError rc' (Shell fixme_cmd) (Some out') (Some err'))
                    else Inr (if rstrip True out' = [] then 0 else 1)
                | Expired \<Rightarrow> Inl TimeoutExpired
                | NotStarted \<Rightarrow> Inl OSError)
      | Expired \<Rightarrow> Inl TimeoutExpired
      | NotStarted \<Rightarrow> Inl OSError)
   \<and> (fst (main sys argv st) = Inr 0 \<longrightarrow> printed (snd (main sys argv st)) = printed st)
   \<and> child (host g) (shell_proc (host g) fixme_cmd)
       = Exited 0 (snd (grep_iE (fst (snd (diff_cached g))))) (snd (snd (diff_cached g)))
   \<and> (symbolic_ref_HEAD g = (0, ''refs/heads/'' @ name @ [newline], err)
        \<and> rstrip True name \<in> protected_set branch
        \<and> filter grep_selects (input_lines [] (fst (snd (diff_cached g)))) = []
      \<longrightarrow> fst (main (host g) argv st) = Inr 0
          \<and> printed (snd (main (host g) argv st)) = printed st)"
proof -
  have 1: "fst (main sys argv st) =
     (case child sys (shell_proc sys symbolic_ref_cmd) of
        Exited rc out err \<Rightarrow>
          if rc \<noteq> 0 then Inr 0
          else if join ''/'' (drop 2 (split (CHR ''/'') (strip (rstrip True out))))
                    \<notin> protected_set branch
          then Inr 0
          else (case child sys (shell_proc sys fixme_cmd) of
                  Exited rc' out' err' \<Rightarrow>
                    if rc' \<noteq> 0
                    then Inl (CalledProcessError rc' (Shell fixme_cmd) (Some out') (Some err'))
                    else Inr (if rstrip True out' = [] then 0 else 1)
                | Expired \<Rightarrow> Inl TimeoutExpired
                | NotStarted \<Rightarrow> Inl OSError)
      | Expired \<Rightarrow> Inl TimeoutExpired
      | NotStarted \<Rightarrow> Inl OSError)"
    by (simp add: main_parsed [OF assms] decide_fst is_on_branch_outcome
        has_fixme_comments_outcome split: child_end.splits)
  have 2: "printed (snd (main sys' argv st)) = printed st" if "fst (main sys' argv st) = Inr 0"
    for sys'
    using that by (simp add: main_parsed [OF assms] decide_printed)
  have 3: "child (host g) (shell_proc (host g) fixme_cmd)
       = Exited 0 (snd (grep_iE (fst (snd (diff_cached g))))) (snd (snd (diff_cached g)))"
    by (cases "diff_cached g") (simp add: host_fixme)
  have 4: "fst (main (host g) argv st) = Inr 0"
    if h: "symbolic_ref_HEAD g = (0, ''refs/heads/'' @ name @ [newline], err)"
      and p: "rstrip True name \<in> protected_set branch"
      and e: "filter grep_selects (input_lines [] (fst (snd (diff_cached g)))) = []"
  proof -
    obtain rc d derr where d: "diff_cached g = (rc, d, derr)"
      by (cases "diff_cached g")
    from host_decide_protected [OF h rstrip_ref p d, of st] e d show ?thesis
      by (simp add: main_parsed [OF assms])
  qed
  from 1 2 3 4 show ?thesis by blast
qed

theorem failures_swallowed_or_fatal_witness:
  "parse_args None False [] = Inr None
   \<and> fst (main ((host \<lparr>symbolic_ref_HEAD = on_branch ''main'', diff_cached = (0, diff_clean, [])\<rparr>)
                  \<lparr>child := (\<lambda>p. if p_cmd p = Shell fixme_cmd then Exited (- 9) [] []
                                  else sh \<lparr>symbolic_ref_HEAD = on_branch ''main'',
                                           diff_cached = (0, diff_clean, [])\<rparr> p)\<rparr>) [] io0)
       = Inl (CalledProcessError (- 9) (Shell fixme_cmd) (Some []) (Some []))
   \<and> child (host \<lparr>symbolic_ref_HEAD = on_branch ''main'',
                   diff_cached = (129, diff_clean, ''error: unknown revision'')\<rparr>)
       (shell_proc (host \<lparr>symbolic_ref_HEAD = on_branch ''main'',
                           diff_cached = (129, diff_clean, ''error: unknown revision'')\<rparr>) fixme_cmd)
       = Exited 0 [] ''error: unknown revision''
   \<and> fst (main (host \<lparr>symbolic_ref_HEAD = on_branch ''main'',
                       diff_cached = (129, diff_clean, ''error: unknown revision'')\<rparr>) [] io0) = Inr 0
   \<and> printed (snd (main (host \<lparr>symbolic_ref_HEAD = on_branch ''main'',
                       diff_cached = (129, diff_clean, ''error: unknown revision'')\<rparr>) [] io0)) = []"
proof -
  let ?g = "\<lparr>symbolic_ref_HEAD = on_branch ''main'', diff_cached = (0, diff_clean, [])\<rparr>"
  let ?sys = "(host ?g)\<lparr>child := (\<lambda>p. if p_cmd p = Shell fixme_cmd then Exited (- 9) [] []
                                     else sh ?g p)\<rparr>"
  let ?g' = "\<lparr>symbolic_ref_HEAD = on_branch ''main'',
              diff_cached = (129, diff_clean, ''error: unknown revision'')\<rparr>"
  have p: "parse_args None False [] = Inr None" by simp
  have s: "strip (rstrip True (''refs/heads/main'' @ [newline])) = ''refs/heads/main''"
    by (simp add: strip_def rstrip_def isspace_def str_whitespace_def newline_def)
  have r: "rstrip True ''main'' \<in> protected_set None"
    by (simp add: protected_set_def rstrip_def isspace_def str_whitespace_def)
  have f: "filter grep_selects (input_lines [] diff_clean) = []"
    by code_simp
  have g: "snd (grep_iE diff_clean) = []"
    by (simp add: grep_iE_def f text_of_lines_def)
  have h: "symbolic_ref_HEAD ?g' = (0, ''refs/heads/'' @ ''main'' @ [newline], [])"
    by (simp add: on_branch_def)
  note t = failures_swallowed_or_fatal [OF p, of ?sys io0 ?g' "''main''" "[]"]
  have a: "fst (main ?sys [] io0)
             = Inl (CalledProcessError (- 9) (Shell fixme_cmd) (Some []) (Some []))"
    using t s
    by (simp add: host_def sh_def shell_proc_def on_branch_def cmds_differ protected_set_def)
  have b: "child (host ?g') (shell_proc (host ?g') fixme_cmd)
             = Exited 0 [] ''error: unknown revision''"
    using t g by simp
  have c: "fst (main (host ?g') [] io0) = Inr 0 \<and> printed (snd (main (host ?g') [] io0)) = []"
    using t h r f by (simp add: io0_def)
  from p a b c show ?thesis by simp
qed

text \<open>
  The scenarios A to E of the specification: a marker added on \<open>main\<close>, the same diff on
  \<open>feature/x\<close>, a marker only removed on \<open>main\<close>, no marker on \<open>master\<close>, and a detached
  HEAD.
\<close>

lemma spec_scenarios:
  "fst (main (host \<lparr>symbolic_ref_HEAD = on_branch ''main'',
                    diff_cached = (0, diff_added_marker, [])\<rparr>) [] io0) = Inr 1"
  "printed (snd (main (host \<lparr>symbolic_ref_HEAD = on_branch ''main'',
                    diff_cached = (0, diff_added_marker, [])\<rparr>) [] io0))
     = [fixme_message, ''+    // FIXME: handle edge case'' @ [newline]]"
  "main (host \<lparr>symbolic_ref_HEAD = on_branch ''feature/x'',
               diff_cached = (0, diff_added_marker, [])\<rparr>) [] io0
     = (Inr 0, \<lparr>spawned = [\<lparr>p_cmd = Shell symbolic_ref_cmd, p_shell = True, p_cwd = None,
                              p_environ = [], p_timeout = None\<rparr>], printed = []\<rparr>)"
  "fst (main (host \<lparr>symbolic_ref_HEAD = on_branch ''main'',
                    diff_cached = (0, text_of_lines [''--- a/calc.py'', ''+++ b/calc.py'',
                       ''@@ -1,2 +1 @@'', '' total = a - b'', ''-    // FIXME: handle edge case''],
                    [])\<rparr>) [] io0) = Inr 0"
  "fst (main (host \<lparr>symbolic_ref_HEAD = on_branch ''master'',
                    diff_cached = (0, diff_clean, [])\<rparr>) [] io0) = Inr 0"
  "fst (main (host \<lparr>symbolic_ref_HEAD = detached_HEAD,
                    diff_cached = (0, diff_added_marker, [])\<rparr>) [] io0) = Inr 0"
  by code_simp+


end
